theory Spec2Isabelle
  imports Main
begin

section \<open>The dispatch engine of sc2reader (engine/engine.py)\<close>

text \<open>
  A shallow embedding of \<^verbatim>\<open>GameEngine\<close>: the plugin registry, the resolution of the
  handlers of an event, and the run loop over the event queue. Python objects are
  records; an object's identity is a number; a raise is the left summand of a result,
  carrying the state reached when the exception leaves the loop.
\<close>

subsection \<open>Events\<close>

text \<open>
  The seven base classes that \<^verbatim>\<open>_get_plugin_event_handlers\<close> tests with
  \<^verbatim>\<open>isinstance\<close>, in the order of its tests.
\<close>

datatype category =
  Event | MessageEvent | GameEvent | TrackerEvent | PlayerActionEvent | AbilityEvent | HotkeyEvent

text \<open>
  Modelled from the spec: the module \<^verbatim>\<open>sc2reader.events\<close> that declares the seven base
  classes is not part of the sources at hand. \<^verbatim>\<open>_has_event_handler(plugin, Event)\<close> reads
  the class attribute \<^verbatim>\<open>name\<close> of the base class; the spec names the handler of a category
  \<^verbatim>\<open>handle<Category>\<close>, so the attribute is the name of the class.
\<close>

fun class_name :: "category \<Rightarrow> string" where
  "class_name Event = ''Event''"
| "class_name MessageEvent = ''MessageEvent''"
| "class_name GameEvent = ''GameEvent''"
| "class_name TrackerEvent = ''TrackerEvent''"
| "class_name PlayerActionEvent = ''PlayerActionEvent''"
| "class_name AbilityEvent = ''AbilityEvent''"
| "class_name HotkeyEvent = ''HotkeyEvent''"

type_synonym details = "(string \<times> string) list"

text \<open>
  What the engine reads through a reference to a plugin object held by an event:
  the identity of the object (for \<^verbatim>\<open>list.remove\<close>) and its \<^verbatim>\<open>name\<close> attribute.
\<close>

record plugin_ref =
  ref_id :: nat
  ref_name :: string

text \<open>
  An event object: its \<^verbatim>\<open>name\<close>, the base classes it is an instance of, and the
  attributes \<^verbatim>\<open>plugin\<close>, \<^verbatim>\<open>code\<close> and \<^verbatim>\<open>details\<close>, which only some events have
  (\<open>None\<close> is a missing attribute).
\<close>

record event =
  event_name :: string
  event_classes :: "category set"
  event_plugin :: "plugin_ref option"
  event_code :: "int option"
  event_details :: "details option"

definition isinstance :: "event \<Rightarrow> category \<Rightarrow> bool" where
  "isinstance e c = (c \<in> event_classes e)"

text \<open>
  Modelled from the spec: the module \<^verbatim>\<open>sc2reader.engine.events\<close> that declares the two
  sentinels and \<^verbatim>\<open>PluginExit\<close> is not part of the sources at hand. The sentinels are
  matched by \<^verbatim>\<open>handleInitGame\<close> and \<^verbatim>\<open>handleEndGame\<close>, so their names are
  \<^verbatim>\<open>InitGame\<close> and \<^verbatim>\<open>EndGame\<close>; the base classes they derive from are not given and
  are taken as a parameter. A control exit event carries the plugin, the code and the
  details.
\<close>

definition InitGameEvent :: "category set \<Rightarrow> event" where
  "InitGameEvent bases =
     \<lparr>event_name = ''InitGame'', event_classes = bases,
      event_plugin = None, event_code = None, event_details = None\<rparr>"

definition EndGameEvent :: "category set \<Rightarrow> event" where
  "EndGameEvent bases =
     \<lparr>event_name = ''EndGame'', event_classes = bases,
      event_plugin = None, event_code = None, event_details = None\<rparr>"

definition PluginExit :: "plugin_ref \<Rightarrow> int \<Rightarrow> details \<Rightarrow> event" where
  "PluginExit plugin code dets =
     \<lparr>event_name = ''PluginExit'', event_classes = {},
      event_plugin = Some plugin, event_code = Some code, event_details = Some dets\<rparr>"

subsection \<open>Errors, handlers and plugins\<close>

datatype error = ValueError | AttributeError | IndexError | Fault string

text \<open>
  A handler is called with the event and the replay. \<open>'w\<close> is everything a handler may
  read and change: the replay's data and the plugins' own fields (the outcome mapping
  \<^verbatim>\<open>replay.plugins\<close> is written by the engine only). It returns \<^verbatim>\<open>None\<close> or the events
  it yields, or raises.
\<close>

type_synonym 'w handler = "event \<Rightarrow> 'w \<Rightarrow> error \<times> 'w + event list option \<times> 'w"

text \<open>
  A plugin object: its identity, its \<^verbatim>\<open>name\<close>, what \<^verbatim>\<open>==\<close> gives when the plugin
  is compared with another object (the \<^verbatim>\<open>__eq__\<close> of the two classes decides, and it
  may read the fields of both objects), and the attributes that
  \<^verbatim>\<open>hasattr\<close> and \<^verbatim>\<open>getattr\<close> find under a name.
\<close>

record 'w plugin =
  plugin_id :: nat
  plugin_name :: string
  plugin_eq :: "plugin_ref \<Rightarrow> 'w \<Rightarrow> bool"
  plugin_attrs :: "string \<rightharpoonup> 'w handler"

text \<open>
  The comparison of a class that does not define \<^verbatim>\<open>__eq__\<close>: an object is equal to
  no other object.
\<close>

definition object_eq :: "plugin_ref \<Rightarrow> 'w \<Rightarrow> bool" where
  "object_eq x w = False"

text \<open>
  The test that \<^verbatim>\<open>list.remove(x)\<close> makes on an item: the item is \<^verbatim>\<open>x\<close>, or the
  item \<^verbatim>\<open>== x\<close>.
\<close>

definition py_eq :: "'w plugin \<Rightarrow> plugin_ref \<Rightarrow> 'w \<Rightarrow> bool" where
  "py_eq item x w = (plugin_id item = ref_id x \<or> plugin_eq item x w)"

text \<open>The bound method \<^verbatim>\<open>plugin.handleX\<close>: the object it is bound to and the function.\<close>

record 'w bound_method =
  im_self :: nat
  im_func :: "'w handler"

subsection \<open>The plugin registry\<close>

record 'w game_engine =
  self_plugins :: "'w plugin list"

definition register_plugin :: "'w game_engine \<Rightarrow> 'w plugin \<Rightarrow> 'w game_engine" where
  "register_plugin self plugin = self\<lparr>self_plugins := self_plugins self @ [plugin]\<rparr>"

fun register_plugins :: "'w game_engine \<Rightarrow> 'w plugin list \<Rightarrow> 'w game_engine" where
  "register_plugins self [] = self"
| "register_plugins self (plugin # rest) = register_plugins (register_plugin self plugin) rest"

definition GameEngine :: "'w plugin list \<Rightarrow> 'w game_engine" where
  "GameEngine plugins0 = register_plugins \<lparr>self_plugins = []\<rparr> plugins0"

subsection \<open>Handler resolution\<close>

definition has_event_handler :: "'w plugin \<Rightarrow> string \<Rightarrow> bool" where
  "has_event_handler plugin nm = (plugin_attrs plugin (''handle'' @ nm) \<noteq> None)"

definition get_event_handler :: "'w plugin \<Rightarrow> string \<Rightarrow> 'w bound_method option" where
  "get_event_handler plugin nm =
     (case plugin_attrs plugin (''handle'' @ nm) of
        None \<Rightarrow> None
      | Some f \<Rightarrow> Some \<lparr>im_self = plugin_id plugin, im_func = f\<rparr>)"

text \<open>
  \<^verbatim>\<open>handlers.append(self._get_event_handler(plugin, X))\<close>; every call is guarded by
  \<^verbatim>\<open>_has_event_handler(plugin, X)\<close>, so \<^verbatim>\<open>getattr\<close> finds the attribute.
\<close>

definition append_handler ::
  "'w bound_method list \<Rightarrow> 'w plugin \<Rightarrow> string \<Rightarrow> 'w bound_method list" where
  "append_handler hs plugin nm = hs @ [the (get_event_handler plugin nm)]"

definition get_plugin_event_handlers :: "'w plugin \<Rightarrow> event \<Rightarrow> 'w bound_method list" where
  "get_plugin_event_handlers plugin e =
    (let hs = [];
         hs = (if isinstance e Event \<and> has_event_handler plugin (class_name Event)
               then append_handler hs plugin (class_name Event) else hs);
         hs = (if isinstance e MessageEvent \<and> has_event_handler plugin (class_name MessageEvent)
               then append_handler hs plugin (class_name MessageEvent) else hs);
         hs = (if isinstance e GameEvent \<and> has_event_handler plugin (class_name GameEvent)
               then append_handler hs plugin (class_name GameEvent) else hs);
         hs = (if isinstance e TrackerEvent \<and> has_event_handler plugin (class_name TrackerEvent)
               then append_handler hs plugin (class_name TrackerEvent) else hs);
         hs = (if isinstance e PlayerActionEvent
                  \<and> has_event_handler plugin (class_name PlayerActionEvent)
               then append_handler hs plugin (class_name PlayerActionEvent) else hs);
         hs = (if isinstance e AbilityEvent \<and> has_event_handler plugin (class_name AbilityEvent)
               then append_handler hs plugin (class_name AbilityEvent) else hs);
         hs = (if isinstance e HotkeyEvent \<and> has_event_handler plugin (class_name HotkeyEvent)
               then append_handler hs plugin (class_name HotkeyEvent) else hs);
         hs = (if has_event_handler plugin (event_name e)
               then append_handler hs plugin (event_name e) else hs)
     in hs)"

text \<open>\<^verbatim>\<open>sum(lists, [])\<close>: the lists added up from the left, starting from the empty list.\<close>

definition sum_lists :: "'a list list \<Rightarrow> 'a list" where
  "sum_lists xss = foldl (@) [] xss"

definition get_event_handlers :: "event \<Rightarrow> 'w plugin list \<Rightarrow> 'w bound_method list" where
  "get_event_handlers e plugins0 =
     sum_lists (map (\<lambda>plugin. get_plugin_event_handlers plugin e) plugins0)"

subsection \<open>The run loop\<close>

text \<open>
  \<^verbatim>\<open>replay\<close>: the input events, the outcome mapping \<^verbatim>\<open>replay.plugins\<close>, and the data
  the handlers work on.
\<close>

record 'w replay =
  replay_events :: "event list"
  replay_plugins :: "string \<rightharpoonup> int \<times> details"
  replay_data :: "'w"

text \<open>The engine object and the local variables of \<^verbatim>\<open>run\<close>.\<close>

record 'w run_state =
  self :: "'w game_engine"
  handlers :: "string \<rightharpoonup> 'w bound_method list"
  plugins :: "'w plugin list"
  replay :: "'w replay"
  event_queue :: "event list"

text \<open>
  \<^verbatim>\<open>plugins.remove(x)\<close>: the first item that is \<^verbatim>\<open>x\<close> or equal to \<^verbatim>\<open>x\<close> is
  removed; \<^verbatim>\<open>ValueError\<close>, here \<open>None\<close>, when there is none. \<open>w\<close> is the data that
  the comparison may read.
\<close>

fun list_remove :: "plugin_ref \<Rightarrow> 'w \<Rightarrow> 'w plugin list \<Rightarrow> 'w plugin list option" where
  "list_remove x w [] = None"
| "list_remove x w (p # ps) =
     (if py_eq p x w then Some ps
      else (case list_remove x w ps of None \<Rightarrow> None | Some ps' \<Rightarrow> Some (p # ps')))"

text \<open>\<^verbatim>\<open>deque.extendleft(xs)\<close>: one \<^verbatim>\<open>appendleft\<close> for each item of \<open>xs\<close>, in order.\<close>

fun extendleft :: "'a list \<Rightarrow> 'a list \<Rightarrow> 'a list" where
  "extendleft q [] = q"
| "extendleft q (x # xs) = extendleft (x # q) xs"

text \<open>
  The loop over \<^verbatim>\<open>event_handlers\<close>:
  \<^verbatim>\<open>new_events.extend(event_handler(event, replay) or [])\<close>.
\<close>

fun call_handlers ::
  "'w bound_method list \<Rightarrow> event \<Rightarrow> 'w \<Rightarrow> event list \<Rightarrow> error \<times> 'w + event list \<times> 'w" where
  "call_handlers [] e w new_events = Inr (new_events, w)"
| "call_handlers (h # hs) e w new_events =
     (case im_func h e w of
        Inl (err, w') \<Rightarrow> Inl (err, w')
      | Inr (res, w') \<Rightarrow>
          call_handlers hs e w' (new_events @ (case res of None \<Rightarrow> [] | Some evs \<Rightarrow> evs)))"

text \<open>The branch of a \<^verbatim>\<open>PluginExit\<close> event (the event is already taken off the queue).\<close>

definition plugin_exit :: "'w run_state \<Rightarrow> event \<Rightarrow> error \<times> 'w run_state + 'w run_state" where
  "plugin_exit s e =
     (case event_plugin e of
        None \<Rightarrow> Inl (AttributeError, s)
      | Some pl \<Rightarrow>
          (case list_remove pl (replay_data (replay s)) (plugins s) of
             None \<Rightarrow> Inl (ValueError, s)
           | Some ps \<Rightarrow>
               (let s1 = s\<lparr>plugins := ps, handlers := Map.empty\<rparr> in
                (case event_code e of
                   None \<Rightarrow> Inl (AttributeError, s1)
                 | Some c \<Rightarrow>
                     (case event_details e of
                        None \<Rightarrow> Inl (AttributeError, s1)
                      | Some d \<Rightarrow>
                          Inr (s1\<lparr>replay := (replay s1)
                                 \<lparr>replay_plugins :=
                                    (replay_plugins (replay s1))(ref_name pl \<mapsto> (c, d))\<rparr>\<rparr>))))))"

text \<open>The handlers that the loop calls for \<open>e\<close>: the cached list, or the resolved one.\<close>

definition event_handlers :: "'w run_state \<Rightarrow> event \<Rightarrow> 'w bound_method list" where
  "event_handlers s e =
     (case handlers s (event_name e) of
        None \<Rightarrow> get_event_handlers e (plugins s)
      | Some hs \<Rightarrow> hs)"

definition cache_handlers :: "'w run_state \<Rightarrow> event \<Rightarrow> 'w run_state" where
  "cache_handlers s e =
     (case handlers s (event_name e) of
        None \<Rightarrow> s\<lparr>handlers := (handlers s)(event_name e \<mapsto> get_event_handlers e (plugins s))\<rparr>
      | Some hs \<Rightarrow> s)"

text \<open>The branch of every other event.\<close>

definition dispatch :: "'w run_state \<Rightarrow> event \<Rightarrow> error \<times> 'w run_state + 'w run_state" where
  "dispatch s e =
     (let hs = event_handlers s e;
          s1 = cache_handlers s e
      in (case call_handlers hs e (replay_data (replay s1)) [] of
            Inl (err, w) \<Rightarrow> Inl (err, s1\<lparr>replay := (replay s1)\<lparr>replay_data := w\<rparr>\<rparr>)
          | Inr (new_events, w) \<Rightarrow>
              Inr (s1\<lparr>replay := (replay s1)\<lparr>replay_data := w\<rparr>,
                      event_queue := extendleft (event_queue s1) new_events\<rparr>)))"

text \<open>One pass through the body of the \<^verbatim>\<open>while\<close> loop.\<close>

definition loop_body :: "'w run_state \<Rightarrow> error \<times> 'w run_state + 'w run_state" where
  "loop_body s =
     (case event_queue s of
        [] \<Rightarrow> Inl (IndexError, s)
      | e # queue \<Rightarrow>
          (let s1 = s\<lparr>event_queue := queue\<rparr> in
           if event_name e = ''PluginExit'' then plugin_exit s1 e else dispatch s1 e))"

text \<open>
  The \<^verbatim>\<open>while\<close> loop. Handlers may yield events for ever, so the loop takes fuel:
  \<open>None\<close> is a loop that has not finished within the fuel.
\<close>

fun run_loop :: "nat \<Rightarrow> 'w run_state \<Rightarrow> (error \<times> 'w run_state + 'w run_state) option" where
  "run_loop 0 s = (if event_queue s = [] then Some (Inr s) else None)"
| "run_loop (Suc n) s =
     (if event_queue s = [] then Some (Inr s)
      else (case loop_body s of
              Inl err \<Rightarrow> Some (Inl err)
            | Inr s' \<Rightarrow> run_loop n s'))"

text \<open>The last loop: \<^verbatim>\<open>replay.plugins[plugin.name] = (0, dict())\<close> for the plugins left.\<close>

fun record_completion ::
  "'w plugin list \<Rightarrow> (string \<rightharpoonup> int \<times> details) \<Rightarrow> (string \<rightharpoonup> int \<times> details)" where
  "record_completion [] m = m"
| "record_completion (p # ps) m = record_completion ps (m(plugin_name p \<mapsto> (0, [])))"

definition initial ::
  "category set \<Rightarrow> category set \<Rightarrow> 'w game_engine \<Rightarrow> 'w replay \<Rightarrow> 'w run_state" where
  "initial ib eb slf rp =
     \<lparr>self = slf,
      handlers = Map.empty,
      plugins = self_plugins slf,
      replay = rp\<lparr>replay_plugins := Map.empty\<rparr>,
      event_queue = (([] @ [InitGameEvent ib]) @ replay_events rp) @ [EndGameEvent eb]\<rparr>"

definition finish :: "'w run_state \<Rightarrow> 'w run_state" where
  "finish s =
     s\<lparr>replay := (replay s)
        \<lparr>replay_plugins := record_completion (plugins s) (replay_plugins (replay s))\<rparr>\<rparr>"

definition run ::
  "nat \<Rightarrow> category set \<Rightarrow> category set \<Rightarrow> 'w game_engine \<Rightarrow> 'w replay
     \<Rightarrow> (error \<times> 'w run_state + 'w run_state) option" where
  "run fuel ib eb slf rp =
     (case run_loop fuel (initial ib eb slf rp) of
        None \<Rightarrow> None
      | Some (Inl err) \<Rightarrow> Some (Inl err)
      | Some (Inr s) \<Rightarrow> Some (Inr (finish s)))"

subsection \<open>The resolution order in the words of the specification\<close>

definition category_order :: "category list" where
  "category_order =
     [Event, MessageEvent, GameEvent, TrackerEvent, PlayerActionEvent, AbilityEvent, HotkeyEvent]"

definition opt_list :: "'a option \<Rightarrow> 'a list" where
  "opt_list x = (case x of None \<Rightarrow> [] | Some y \<Rightarrow> [y])"

text \<open>
  One plugin: for every category, in the fixed order, that the event belongs to, the
  handler the plugin has under the category's name, if any; then the handler it has under
  the event's own name, if any.
\<close>

definition plugin_handlers_spec :: "'w plugin \<Rightarrow> event \<Rightarrow> 'w bound_method list" where
  "plugin_handlers_spec plugin e =
     concat (map (\<lambda>c. if isinstance e c
                       then opt_list (get_event_handler plugin (class_name c)) else [])
               category_order)
     @ opt_list (get_event_handler plugin (event_name e))"

text \<open>All plugins: the lists of the plugins, one after the other, in plugin order.\<close>

definition handlers_spec :: "event \<Rightarrow> 'w plugin list \<Rightarrow> 'w bound_method list" where
  "handlers_spec e ps = concat (map (\<lambda>plugin. plugin_handlers_spec plugin e) ps)"

subsection \<open>Observing a run\<close>

text \<open>The state after \<open>k\<close> passes through the loop, when the run gets that far.\<close>

fun iterations :: "nat \<Rightarrow> 'w run_state \<Rightarrow> 'w run_state option" where
  "iterations 0 s = Some s"
| "iterations (Suc k) s =
     (if event_queue s = [] then None
      else (case loop_body s of Inl err \<Rightarrow> None | Inr s' \<Rightarrow> iterations k s'))"

text \<open>The events that the first \<open>k\<close> passes take off the queue, in order.\<close>

fun processed :: "nat \<Rightarrow> 'w run_state \<Rightarrow> event list" where
  "processed 0 s = []"
| "processed (Suc k) s =
     (case event_queue s of
        [] \<Rightarrow> []
      | e # q \<Rightarrow> e # (case loop_body s of Inl err \<Rightarrow> [] | Inr s' \<Rightarrow> processed k s'))"

text \<open>The handlers that the next pass through the loop calls.\<close>

definition invoked :: "'w run_state \<Rightarrow> 'w bound_method list" where
  "invoked s =
     (case event_queue s of
        [] \<Rightarrow> []
      | e # q \<Rightarrow> if event_name e = ''PluginExit'' then [] else event_handlers s e)"

definition result_state :: "error \<times> 'w run_state + 'w run_state \<Rightarrow> 'w run_state" where
  "result_state r = (case r of Inl (err, s) \<Rightarrow> s | Inr s \<Rightarrow> s)"

text \<open>\<^verbatim>\<open>plugin \<in> plugins\<close> for a reference, and the number of times it occurs.\<close>

definition active :: "nat \<Rightarrow> 'w plugin list \<Rightarrow> bool" where
  "active x ps = (x \<in> plugin_id ` set ps)"


text \<open>Some plugin of the list is \<open>x\<close> or equal to \<open>x\<close>: \<^verbatim>\<open>x in plugins\<close>.\<close>

definition contains :: "plugin_ref \<Rightarrow> 'w \<Rightarrow> 'w plugin list \<Rightarrow> bool" where
  "contains x w ps = list_ex (\<lambda>p. py_eq p x w) ps"


text \<open>The plugins of the list compare with \<open>x\<close> by identity: only \<open>x\<close> is equal to \<open>x\<close>.\<close>

definition by_identity :: "plugin_ref \<Rightarrow> 'w \<Rightarrow> 'w plugin list \<Rightarrow> bool" where
  "by_identity x w ps = list_all (\<lambda>p. py_eq p x w \<longrightarrow> plugin_id p = ref_id x) ps"

subsection \<open>Test objects\<close>

text \<open>
  An event like \<^verbatim>\<open>TestEvent\<close> of the module's self-test: a name and no base class of the
  seven. The handlers of the test plugins write their calls to a log.
\<close>

definition TestEvent :: "string \<Rightarrow> event" where
  "TestEvent nm =
     \<lparr>event_name = nm, event_classes = {},
      event_plugin = None, event_code = None, event_details = None\<rparr>"

definition logging :: "string \<Rightarrow> event list option \<Rightarrow> string list handler" where
  "logging tag res e w = Inr (res, w @ [tag @ '':'' @ event_name e])"

definition empty_replay :: "string list replay" where
  "empty_replay = \<lparr>replay_events = [], replay_plugins = Map.empty, replay_data = []\<rparr>"

text \<open>A plugin whose \<^verbatim>\<open>handleInitGame\<close> yields two events, \<open>A\<close> and then \<open>B\<close>.\<close>

definition two_yielder :: "string list plugin" where
  "two_yielder =
     \<lparr>plugin_id = 1, plugin_name = ''TwoYielder'', plugin_eq = object_eq,
      plugin_attrs = [''handleInitGame'' \<mapsto> logging ''init'' (Some [TestEvent ''A'', TestEvent ''B''])]\<rparr>"

text \<open>A plugin with the one method \<^verbatim>\<open>handleEvent\<close>, and an event named \<open>Event\<close>.\<close>

definition general_plugin :: "string list plugin" where
  "general_plugin =
     \<lparr>plugin_id = 2, plugin_name = ''General'', plugin_eq = object_eq,
      plugin_attrs = [''handleEvent'' \<mapsto> logging ''event'' None]\<rparr>"

definition base_event :: event where
  "base_event =
     \<lparr>event_name = ''Event'', event_classes = {Event},
      event_plugin = None, event_code = None, event_details = None\<rparr>"







text \<open>
  A plugin whose \<^verbatim>\<open>handleInitGame\<close> yields its own exit, and that has
  \<^verbatim>\<open>handleEndGame\<close> too.
\<close>

definition leaver_ref :: plugin_ref where
  "leaver_ref = \<lparr>ref_id = 5, ref_name = ''Leaver''\<rparr>"

definition leaver :: "string list plugin" where
  "leaver =
     \<lparr>plugin_id = 5, plugin_name = ''Leaver'', plugin_eq = object_eq,
      plugin_attrs =
        [''handleInitGame'' \<mapsto> logging ''init'' (Some [PluginExit leaver_ref 7 []]),
         ''handleEndGame'' \<mapsto> logging ''end'' None]\<rparr>"

definition leaver_done :: "string list run_state" where
  "leaver_done =
     \<lparr>self = GameEngine [leaver, general_plugin],
      handlers = [''EndGame'' \<mapsto> []],
      plugins = [general_plugin],
      replay = \<lparr>replay_events = [],
                replay_plugins = [''Leaver'' \<mapsto> (7, []), ''General'' \<mapsto> (0, [])],
                replay_data = [''init:InitGame'']\<rparr>,
      event_queue = []\<rparr>"


definition cache_complete :: "'w run_state \<Rightarrow> bool" where
  "cache_complete s =
     (\<forall>nm hs p f. handlers s nm = Some hs \<longrightarrow> p \<in> set (plugins s)
        \<longrightarrow> plugin_attrs p (''handle'' @ nm) = Some f
        \<longrightarrow> \<lparr>im_self = plugin_id p, im_func = f\<rparr> \<in> set hs)"

text \<open>
  A plugin with \<^verbatim>\<open>handleX\<close>, and the states of a loop that has the events \<open>X\<close>, \<open>Y\<close>
  and \<open>X\<close> to process: at the start, after \<open>X\<close>, and after \<open>Y\<close>.
\<close>

definition x_plugin :: "string list plugin" where
  "x_plugin =
     \<lparr>plugin_id = 7, plugin_name = ''XPlugin'', plugin_eq = object_eq,
      plugin_attrs = [''handleX'' \<mapsto> logging ''x'' None]\<rparr>"

definition xyx_state :: "string list run_state" where
  "xyx_state =
     \<lparr>self = GameEngine [x_plugin],
      handlers = Map.empty,
      plugins = [x_plugin],
      replay = empty_replay,
      event_queue = [TestEvent ''X'', TestEvent ''Y'', TestEvent ''X'', EndGameEvent {}]\<rparr>"

definition xyx_after_x :: "string list run_state" where
  "xyx_after_x =
     xyx_state
       \<lparr>handlers := [''X'' \<mapsto> get_event_handlers (TestEvent ''X'') [x_plugin]],
        replay := empty_replay\<lparr>replay_data := [''x:X'']\<rparr>,
        event_queue := [TestEvent ''Y'', TestEvent ''X'', EndGameEvent {}]\<rparr>"

definition xyx_after_y :: "string list run_state" where
  "xyx_after_y =
     xyx_after_x
       \<lparr>handlers := [''X'' \<mapsto> get_event_handlers (TestEvent ''X'') [x_plugin], ''Y'' \<mapsto> []],
        event_queue := [TestEvent ''X'', EndGameEvent {}]\<rparr>"








text \<open>
  A plugin whose \<^verbatim>\<open>handleInitGame\<close> yields the event \<open>X\<close>, with \<^verbatim>\<open>handleX\<close> and
  \<^verbatim>\<open>handleEndGame\<close>; the state of its run over no events when the end event is next,
  and the state the run ends in.
\<close>

definition bookend :: "string list plugin" where
  "bookend =
     \<lparr>plugin_id = 8, plugin_name = ''Bookend'', plugin_eq = object_eq,
      plugin_attrs = [''handleInitGame'' \<mapsto> logging ''init'' (Some [TestEvent ''X'']),
                      ''handleX'' \<mapsto> logging ''x'' None,
                      ''handleEndGame'' \<mapsto> logging ''end'' None]\<rparr>"

definition bookend_at_end :: "string list run_state" where
  "bookend_at_end =
     \<lparr>self = GameEngine [bookend],
      handlers = [''InitGame'' \<mapsto> get_event_handlers (InitGameEvent {}) [bookend],
                  ''X'' \<mapsto> get_event_handlers (TestEvent ''X'') [bookend]],
      plugins = [bookend],
      replay = empty_replay\<lparr>replay_data := [''init:InitGame'', ''x:X'']\<rparr>,
      event_queue = [EndGameEvent {}]\<rparr>"

definition bookend_done :: "string list run_state" where
  "bookend_done =
     bookend_at_end
       \<lparr>handlers := [''InitGame'' \<mapsto> get_event_handlers (InitGameEvent {}) [bookend],
                     ''X'' \<mapsto> get_event_handlers (TestEvent ''X'') [bookend],
                     ''EndGame'' \<mapsto> get_event_handlers (EndGameEvent {}) [bookend]],
        replay := \<lparr>replay_events = [],
                   replay_plugins = [''Bookend'' \<mapsto> (0, [])],
                   replay_data = [''init:InitGame'', ''x:X'', ''end:EndGame'']\<rparr>,
        event_queue := []\<rparr>"







section \<open>Properties\<close>

subsection \<open>Basic facts about the operations\<close>

lemma extendleft_rev: "extendleft q xs = rev xs @ q"
  by (induction xs arbitrary: q) simp_all

lemma foldl_append_concat: "foldl (@) acc xss = acc @ concat xss"
  by (induction xss arbitrary: acc) simp_all

lemma sum_lists_concat: "sum_lists xss = concat xss"
  by (simp add: sum_lists_def foldl_append_concat)

lemma guarded_append:
  "(if g \<and> has_event_handler p nm then append_handler hs p nm else hs)
     = hs @ (if g then opt_list (get_event_handler p nm) else [])"
  by (simp add: has_event_handler_def append_handler_def get_event_handler_def opt_list_def
           split: option.splits)

lemma guarded_append_last:
  "(if has_event_handler p nm then append_handler hs p nm else hs)
     = hs @ opt_list (get_event_handler p nm)"
  using guarded_append [of True p nm hs] by simp

lemma get_plugin_event_handlers_spec:
  "get_plugin_event_handlers p e = plugin_handlers_spec p e"
  unfolding get_plugin_event_handlers_def plugin_handlers_spec_def category_order_def Let_def
    guarded_append guarded_append_last
  by simp

lemma get_event_handlers_concat:
  "get_event_handlers e ps = concat (map (\<lambda>p. plugin_handlers_spec p e) ps)"
  by (simp add: get_event_handlers_def sum_lists_concat get_plugin_event_handlers_spec)

lemma single_method_lookup:
  "plugin_attrs p = [''handle'' @ nm \<mapsto> f] \<Longrightarrow>
   get_event_handler p nm'
     = (if nm' = nm then Some \<lparr>im_self = plugin_id p, im_func = f\<rparr> else None)"
  by (simp add: get_event_handler_def)

lemmas eval_defs = loop_body_def dispatch_def event_handlers_def cache_handlers_def
  get_event_handlers_def get_plugin_event_handlers_def sum_lists_def has_event_handler_def
  get_event_handler_def append_handler_def isinstance_def initial_def GameEngine_def
  register_plugin_def InitGameEvent_def EndGameEvent_def PluginExit_def plugin_exit_def
  TestEvent_def logging_def empty_replay_def py_eq_def object_eq_def

subsection \<open>The order of the yielded events\<close>

text \<open>
  Claim C1 says that the events yielded while one event is handled go to the front of the
  queue in the order they were yielded. The loop hands the batch to \<^verbatim>\<open>extendleft\<close>
  as it is, though its comment says the batch has to be reversed first. Here
  \<^verbatim>\<open>handleInitGame\<close> yields \<open>A\<close> and then \<open>B\<close>, and after the pass for the init event the
  queue is \<open>B\<close>, \<open>A\<close>, end: the batch is in front of what was queued, but in reverse.
\<close>

theorem yielded_batch_is_reversed:
  "loop_body (initial {} {} (GameEngine [two_yielder]) empty_replay)
     = Inr ((initial {} {} (GameEngine [two_yielder]) empty_replay)
         \<lparr>handlers := [''InitGame'' \<mapsto> get_event_handlers (InitGameEvent {}) [two_yielder]],
          replay := empty_replay\<lparr>replay_data := [''init:InitGame'']\<rparr>,
          event_queue := [TestEvent ''B'', TestEvent ''A'', EndGameEvent {}]\<rparr>)"
  by (simp add: eval_defs two_yielder_def)

subsection \<open>Handler resolution\<close>

text \<open>
  Claim C2: for every event and every list of active plugins, the resolved handlers are
  the lists of the plugins one after the other, in plugin order; the list of a plugin
  holds, for each of the seven categories in the fixed order that the event belongs to
  and the plugin has a handler for, that handler, and last the handler named after the
  event itself, if the plugin has one. A plugin that matches nothing adds nothing.
\<close>

theorem resolution_is_plugin_major:
  "get_event_handlers e ps = handlers_spec e ps"
  by (simp add: get_event_handlers_concat handlers_spec_def)

text \<open>
  Claim C10: when the name of an event is the name of a category it belongs to, a plugin
  whose one method is the handler of that name contributes the handler twice, once for the
  category and once for the event's own name, so it is called twice for the one event.
\<close>

theorem category_named_event_handled_twice:
  assumes "isinstance e c" and "event_name e = class_name c"
    and "plugin_attrs p = [''handle'' @ event_name e \<mapsto> f]"
  shows "get_plugin_event_handlers p e
           = [\<lparr>im_self = plugin_id p, im_func = f\<rparr>, \<lparr>im_self = plugin_id p, im_func = f\<rparr>]
         \<and> get_event_handlers e [p]
           = [\<lparr>im_self = plugin_id p, im_func = f\<rparr>, \<lparr>im_self = plugin_id p, im_func = f\<rparr>]"
proof -
  have one: "plugin_handlers_spec p e
           = [\<lparr>im_self = plugin_id p, im_func = f\<rparr>, \<lparr>im_self = plugin_id p, im_func = f\<rparr>]"
    using assms(1,2)
    by (cases c)
       (simp_all add: plugin_handlers_spec_def category_order_def opt_list_def
          single_method_lookup [OF assms(3)])
  show ?thesis
    by (simp add: get_event_handlers_concat get_plugin_event_handlers_spec one)
qed

theorem category_named_event_handled_twice_witness:
  "get_plugin_event_handlers general_plugin base_event
     = [\<lparr>im_self = 2, im_func = logging ''event'' None\<rparr>,
        \<lparr>im_self = 2, im_func = logging ''event'' None\<rparr>]
   \<and> call_handlers (get_event_handlers base_event [general_plugin]) base_event [] []
     = Inr ([], [''event:Event'', ''event:Event''])"
  using category_named_event_handled_twice
          [of base_event Event general_plugin "logging ''event'' None"]
  by (simp add: isinstance_def base_event_def general_plugin_def logging_def)

subsection \<open>What one pass through the loop does\<close>




lemma list_remove_subset: "list_remove x w ps = Some ps' \<Longrightarrow> set ps' \<subseteq> set ps"
  by (induction ps arbitrary: ps') (auto split: if_splits option.splits)



lemma event_handlers_queue [simp]:
  "event_handlers (s\<lparr>event_queue := q\<rparr>) e = event_handlers s e"
  by (simp add: event_handlers_def split: option.splits)

lemma cache_handlers_fields [simp]:
  "plugins (cache_handlers s e) = plugins s"
  "replay (cache_handlers s e) = replay s"
  "event_queue (cache_handlers s e) = event_queue s"
  "self (cache_handlers s e) = self s"
  by (simp_all add: cache_handlers_def split: option.splits)

lemma cache_handlers_handlers:
  "handlers (cache_handlers s e) = (handlers s)(event_name e \<mapsto> event_handlers s e)"
  by (auto simp: cache_handlers_def event_handlers_def split: option.splits)

lemma loop_body_exit:
  "event_queue s = e # q \<Longrightarrow> event_name e = ''PluginExit'' \<Longrightarrow>
   loop_body s = plugin_exit (s\<lparr>event_queue := q\<rparr>) e"
  by (simp add: loop_body_def)

lemma loop_body_dispatch:
  "event_queue s = e # q \<Longrightarrow> event_name e \<noteq> ''PluginExit'' \<Longrightarrow>
   loop_body s = dispatch (s\<lparr>event_queue := q\<rparr>) e"
  by (simp add: loop_body_def)

lemma plugin_exit_Inr:
  assumes "plugin_exit s e = Inr s'"
  obtains pl ps c d where "event_plugin e = Some pl"
    and "list_remove pl (replay_data (replay s)) (plugins s) = Some ps"
    and "event_code e = Some c" and "event_details e = Some d"
    and "s' = s\<lparr>plugins := ps, handlers := Map.empty,
                 replay := (replay s)
                   \<lparr>replay_plugins := (replay_plugins (replay s))(ref_name pl \<mapsto> (c, d))\<rparr>\<rparr>"
  using assms by (auto simp: plugin_exit_def Let_def split: option.splits)

lemma plugin_exit_Inl:
  "plugin_exit s e = Inl (err, s') \<Longrightarrow> self s' = self s"
  by (auto simp: plugin_exit_def Let_def split: option.splits)

lemma dispatch_Inr:
  assumes "dispatch s e = Inr s'"
  obtains new w where
    "call_handlers (event_handlers s e) e (replay_data (replay s)) [] = Inr (new, w)"
    and "s' = (cache_handlers s e)
                 \<lparr>replay := (replay s)\<lparr>replay_data := w\<rparr>,
                  event_queue := rev new @ event_queue s\<rparr>"
  using assms
  by (auto simp: dispatch_def Let_def extendleft_rev split: sum.splits prod.splits)

lemma dispatch_Inl:
  "dispatch s e = Inl (err, s') \<Longrightarrow> self s' = self s"
  by (auto simp: dispatch_def Let_def split: sum.splits prod.splits)

text \<open>What one pass does to the locals, by the branch taken.\<close>

lemma pass_exit:
  assumes "event_queue s = e # q" and "event_name e = ''PluginExit''"
    and "loop_body s = Inr s'"
  obtains pl where "event_plugin e = Some pl"
    and "list_remove pl (replay_data (replay s)) (plugins s) = Some (plugins s')"
    and "handlers s' = Map.empty" and "self s' = self s" and "event_queue s' = q"
proof -
  from assms have "plugin_exit (s\<lparr>event_queue := q\<rparr>) e = Inr s'"
    by (simp add: loop_body_exit)
  then show thesis
    by (rule plugin_exit_Inr) (rule that, simp_all)
qed

lemma pass_dispatch:
  assumes "event_queue s = e # q" and "event_name e \<noteq> ''PluginExit''"
    and "loop_body s = Inr s'"
  shows "plugins s' = plugins s"
    and "handlers s' = (handlers s)(event_name e \<mapsto> event_handlers s e)"
    and "self s' = self s"
proof -
  from assms have "dispatch (s\<lparr>event_queue := q\<rparr>) e = Inr s'"
    by (simp add: loop_body_dispatch)
  then show "plugins s' = plugins s"
    and "handlers s' = (handlers s)(event_name e \<mapsto> event_handlers s e)"
    and "self s' = self s"
    by (auto elim!: dispatch_Inr simp: cache_handlers_handlers)
qed

lemma pass_self: "loop_body s = Inr s' \<Longrightarrow> self s' = self s"
  by (cases "event_queue s")
     (auto simp: loop_body_def Let_def
           elim!: plugin_exit_Inr dispatch_Inr split: if_splits)

lemma pass_self_raise: "loop_body s = Inl (err, s') \<Longrightarrow> self s' = self s"
  by (cases "event_queue s")
     (auto simp: loop_body_def Let_def dest!: plugin_exit_Inl dispatch_Inl split: if_splits)

lemma run_loop_self:
  "run_loop n s = Some r \<Longrightarrow> self (result_state r) = self s"
proof (induction n arbitrary: s)
  case 0
  then show ?case by (auto simp: result_state_def split: if_splits)
next
  case (Suc n)
  show ?case
  proof (cases "event_queue s = []")
    case True
    with Suc.prems show ?thesis by (auto simp: result_state_def)
  next
    case False
    show ?thesis
    proof (cases "loop_body s")
      case (Inl a)
      with False Suc.prems have "r = Inl a" by simp
      with Inl show ?thesis
        by (cases a) (simp add: result_state_def pass_self_raise)
    next
      case (Inr s')
      with False Suc.prems have "run_loop n s' = Some r" by simp
      with Suc.IH Inr show ?thesis by (simp add: pass_self)
    qed
  qed
qed


lemma iterations_invariant:
  assumes step: "\<And>s s'. I s \<Longrightarrow> event_queue s \<noteq> [] \<Longrightarrow> loop_body s = Inr s' \<Longrightarrow> I s'"
    and "I s0" and "iterations k s0 = Some s"
  shows "I s"
  using assms(2,3)
proof (induction k arbitrary: s0)
  case 0
  then show ?case by simp
next
  case (Suc k)
  from Suc.prems(2) obtain s1 where "event_queue s0 \<noteq> []" "loop_body s0 = Inr s1"
      "iterations k s1 = Some s"
    by (auto split: if_splits sum.splits)
  with Suc.IH step Suc.prems(1) show ?case by blast
qed

lemmas run_defs = eval_defs run_def finish_def active_def contains_def by_identity_def

subsection \<open>The exit of a plugin\<close>







subsection \<open>The registry of the engine\<close>

text \<open>
  Claim C9: a call of \<^verbatim>\<open>run\<close> does not change the plugin registry of the engine. The
  run works on a copy of the list and on a cache and a queue of its own, so whether it
  ends or raises, the engine is as it was, and a later run on it starts from the whole
  registry and an empty cache, and goes as it would have gone without the first.
\<close>

theorem run_leaves_registry:
  assumes "run fuel ib eb eng rp = Some r"
  shows "self (result_state r) = eng
       \<and> plugins (initial ib' eb' (self (result_state r)) rp') = self_plugins eng
       \<and> handlers (initial ib' eb' (self (result_state r)) rp') = Map.empty
       \<and> run fuel' ib' eb' (self (result_state r)) rp' = run fuel' ib' eb' eng rp'"
proof -
  from assms obtain r0 where r0: "run_loop fuel (initial ib eb eng rp) = Some r0"
    and r: "r = (case r0 of Inl err \<Rightarrow> Inl err | Inr s \<Rightarrow> Inr (finish s))"
    by (auto simp: run_def split: option.splits sum.splits)
  from r0 have "self (result_state r0) = self (initial ib eb eng rp)"
    by (rule run_loop_self)
  moreover have "self (result_state r) = self (result_state r0)"
    using r by (auto simp: result_state_def finish_def split: sum.splits)
  ultimately have "self (result_state r) = eng"
    by (simp add: initial_def)
  then show ?thesis by (simp add: initial_def)
qed

theorem run_leaves_registry_witness:
  "run (Suc (Suc (Suc 0))) {} {} (GameEngine [leaver, general_plugin]) empty_replay
     = Some (Inr leaver_done)
   \<and> plugins leaver_done = [general_plugin]
   \<and> self_plugins (self leaver_done) = [leaver, general_plugin]
   \<and> plugins (initial {} {} (self leaver_done) empty_replay) = [leaver, general_plugin]"
proof -
  have r: "run (Suc (Suc (Suc 0))) {} {} (GameEngine [leaver, general_plugin]) empty_replay
     = Some (Inr leaver_done)"
    by (simp add: run_defs leaver_done_def leaver_def leaver_ref_def general_plugin_def)
  from run_leaves_registry [OF r, of "{}" "{}" empty_replay]
  show ?thesis using r
    by (simp add: result_state_def GameEngine_def register_plugin_def leaver_done_def
          initial_def)
qed

subsection \<open>The end of a run\<close>



lemma pass_plugins_subset:
  assumes "loop_body s = Inr s'"
  shows "set (plugins s') \<subseteq> set (plugins s)"
proof (cases "event_queue s")
  case Nil
  with assms show ?thesis by (simp add: loop_body_def)
next
  case (Cons e q)
  show ?thesis
  proof (cases "event_name e = ''PluginExit''")
    case True
    from Cons True assms show ?thesis
    proof (rule pass_exit)
      fix pl
      assume "list_remove pl (replay_data (replay s)) (plugins s) = Some (plugins s')"
      then show ?thesis by (rule list_remove_subset)
    qed
  next
    case False
    from pass_dispatch(1) [OF Cons False assms] show ?thesis by simp
  qed
qed






subsection \<open>After the exit of a plugin\<close>




lemma resolved_handlers_complete:
  assumes "p \<in> set ps" and "plugin_attrs p (''handle'' @ event_name e) = Some f"
  shows "\<lparr>im_self = plugin_id p, im_func = f\<rparr> \<in> set (get_event_handlers e ps)"
proof -
  from assms(2) have "\<lparr>im_self = plugin_id p, im_func = f\<rparr> \<in> set (plugin_handlers_spec p e)"
    by (simp add: plugin_handlers_spec_def opt_list_def get_event_handler_def)
  with assms(1) show ?thesis
    by (auto simp: get_event_handlers_concat)
qed








subsection \<open>The handler cache\<close>

lemma cache_persists:
  assumes "iterations k s1 = Some s2"
    and "\<forall>e\<in>set (processed k s1). event_name e \<noteq> ''PluginExit''"
    and "handlers s1 nm = Some hs"
  shows "handlers s2 nm = Some hs"
  using assms
proof (induction k arbitrary: s1)
  case 0
  then show ?case by simp
next
  case (Suc k)
  from Suc.prems(1) obtain e q s' where q: "event_queue s1 = e # q"
    and b: "loop_body s1 = Inr s'" and it: "iterations k s' = Some s2"
    by (cases "event_queue s1") (auto split: sum.splits)
  from Suc.prems(2) q b have ne: "event_name e \<noteq> ''PluginExit''"
    and rest: "\<forall>e\<in>set (processed k s').  event_name e \<noteq> ''PluginExit''"
    by simp_all
  note d = pass_dispatch [OF q ne b]
  have "handlers s' nm = Some hs"
  proof (cases "nm = event_name e")
    case True
    with Suc.prems(3) have "event_handlers s1 e = hs" by (simp add: event_handlers_def)
    with d(2) True show ?thesis by simp
  next
    case False
    with d(2) Suc.prems(3) show ?thesis by simp
  qed
  with Suc.IH it rest show ?case by blast
qed

text \<open>
  Claim C5: of two events of one run that have the same name, with no control exit event
  processed between them, the second gets the handler list of the first: the list is in
  the cache under the name, and the loop takes it from there without resolving again.
\<close>

theorem same_name_same_handlers:
  assumes "event_queue s = e1 # q1" and "event_name e1 \<noteq> ''PluginExit''"
    and "loop_body s = Inr s1" and "iterations k s1 = Some s2"
    and "\<forall>e\<in>set (processed k s1). event_name e \<noteq> ''PluginExit''"
    and "event_queue s2 = e2 # q2" and "event_name e2 = event_name e1"
  shows "handlers s2 (event_name e2) = Some (event_handlers s e1)
       \<and> event_handlers s2 e2 = event_handlers s e1"
proof -
  note d = pass_dispatch [OF assms(1,2,3)]
  from d(2) have "handlers s1 (event_name e1) = Some (event_handlers s e1)" by simp
  with assms(4,5) have "handlers s2 (event_name e1) = Some (event_handlers s e1)"
    by (rule cache_persists)
  with assms(7) show ?thesis by (simp add: event_handlers_def)
qed

theorem same_name_same_handlers_witness:
  "loop_body xyx_state = Inr xyx_after_x
   \<and> iterations (Suc 0) xyx_after_x = Some xyx_after_y
   \<and> processed (Suc 0) xyx_after_x = [TestEvent ''Y'']
   \<and> event_handlers xyx_after_y (TestEvent ''X'') = event_handlers xyx_state (TestEvent ''X'')
   \<and> event_handlers xyx_state (TestEvent ''X'') = [\<lparr>im_self = 7, im_func = logging ''x'' None\<rparr>]"
  using same_name_same_handlers
          [of xyx_state "TestEvent ''X''" "[TestEvent ''Y'', TestEvent ''X'', EndGameEvent {}]"
              xyx_after_x "Suc 0" xyx_after_y "TestEvent ''X''" "[EndGameEvent {}]"]
  by (simp add: run_defs xyx_state_def xyx_after_x_def xyx_after_y_def x_plugin_def)

subsection \<open>The sentinel events\<close>

lemma cache_complete_event_handlers:
  assumes "cache_complete s" and "p \<in> set (plugins s)"
    and "plugin_attrs p (''handle'' @ event_name e) = Some f"
  shows "\<lparr>im_self = plugin_id p, im_func = f\<rparr> \<in> set (event_handlers s e)"
proof (cases "handlers s (event_name e)")
  case None
  with assms(2,3) show ?thesis
    by (simp add: event_handlers_def resolved_handlers_complete)
next
  case (Some hs)
  with assms have "\<lparr>im_self = plugin_id p, im_func = f\<rparr> \<in> set hs"
    unfolding cache_complete_def by blast
  with Some show ?thesis by (simp add: event_handlers_def)
qed

lemma cache_complete_pass:
  assumes "cache_complete s" and "event_queue s \<noteq> []" and "loop_body s = Inr s'"
  shows "cache_complete s'"
proof -
  from assms(2) obtain e q where q: "event_queue s = e # q"
    by (cases "event_queue s") auto
  show ?thesis
  proof (cases "event_name e = ''PluginExit''")
    case True
    from q True assms(3) show ?thesis
      by (rule pass_exit) (simp add: cache_complete_def)
  next
    case False
    note d = pass_dispatch [OF q False assms(3)]
    show ?thesis
      unfolding cache_complete_def
    proof (intro allI impI)
      fix nm hs p f
      assume h: "handlers s' nm = Some hs" and p: "p \<in> set (plugins s')"
        and f: "plugin_attrs p (''handle'' @ nm) = Some f"
      show "\<lparr>im_self = plugin_id p, im_func = f\<rparr> \<in> set hs"
      proof (cases "nm = event_name e")
        case True
        with h d(2) have "hs = event_handlers s e" by simp
        with assms(1) p f True d(1) show ?thesis
          by (simp add: cache_complete_event_handlers)
      next
        case False
        with h d(2) have "handlers s nm = Some hs" by simp
        with assms(1) p f d(1) show ?thesis
          unfolding cache_complete_def by metis
      qed
    qed
  qed
qed

lemma cache_complete_initial: "cache_complete (initial ib eb eng rp)"
  by (simp add: cache_complete_def initial_def)

text \<open>
  Claim C8: the queue of a run starts as the init event, the events of the replay in
  order, and the end event. When a sentinel is the next event, the pass is the pass of
  any other event (the sentinels are not named \<open>PluginExit\<close>): the handlers called are
  the cached or resolved list for the sentinel's name, and they include the handler that
  any active plugin has under \<^verbatim>\<open>handle\<close> followed by that name. So a run over no
  events calls the handlers of the init and of the end event.
\<close>

theorem sentinels_are_dispatched:
  "event_queue (initial ib eb eng rp)
     = InitGameEvent ib # replay_events rp @ [EndGameEvent eb]
   \<and> (iterations k (initial ib eb eng rp) = Some s \<longrightarrow> event_queue s = e # q
        \<longrightarrow> e = InitGameEvent ib \<or> e = EndGameEvent eb
        \<longrightarrow> loop_body s = dispatch (s\<lparr>event_queue := q\<rparr>) e
            \<and> invoked s = event_handlers s e
            \<and> (\<forall>p f. p \<in> set (plugins s)
                  \<longrightarrow> plugin_attrs p (''handle'' @ event_name e) = Some f
                  \<longrightarrow> \<lparr>im_self = plugin_id p, im_func = f\<rparr> \<in> set (invoked s)))"
proof (intro conjI impI allI)
  show "event_queue (initial ib eb eng rp)
     = InitGameEvent ib # replay_events rp @ [EndGameEvent eb]"
    by (simp add: initial_def)
next
  assume it: "iterations k (initial ib eb eng rp) = Some s"
    and q: "event_queue s = e # q"
    and e: "e = InitGameEvent ib \<or> e = EndGameEvent eb"
  from e have n: "event_name e \<noteq> ''PluginExit''"
    by (auto simp: InitGameEvent_def EndGameEvent_def)
  from q n show "loop_body s = dispatch (s\<lparr>event_queue := q\<rparr>) e"
    by (rule loop_body_dispatch)
  from q n show i: "invoked s = event_handlers s e"
    by (simp add: invoked_def)
  fix p f
  assume p: "p \<in> set (plugins s)"
    and f: "plugin_attrs p (''handle'' @ event_name e) = Some f"
  from cache_complete_pass cache_complete_initial it have "cache_complete s"
    by (rule iterations_invariant)
  then have "\<lparr>im_self = plugin_id p, im_func = f\<rparr> \<in> set (event_handlers s e)"
    using p f by (rule cache_complete_event_handlers)
  with i show "\<lparr>im_self = plugin_id p, im_func = f\<rparr> \<in> set (invoked s)"
    by simp
qed

theorem sentinels_are_dispatched_witness:
  "event_queue (initial {} {} (GameEngine [bookend]) empty_replay)
     = [InitGameEvent {}, EndGameEvent {}]
   \<and> iterations (Suc (Suc 0)) (initial {} {} (GameEngine [bookend]) empty_replay)
       = Some bookend_at_end
   \<and> \<lparr>im_self = 8, im_func = logging ''end'' None\<rparr> \<in> set (invoked bookend_at_end)
   \<and> run (Suc (Suc (Suc 0))) {} {} (GameEngine [bookend]) empty_replay
       = Some (Inr bookend_done)
   \<and> replay_data (replay bookend_done) = [''init:InitGame'', ''x:X'', ''end:EndGame'']"
proof -
  have it: "iterations (Suc (Suc 0)) (initial {} {} (GameEngine [bookend]) empty_replay)
       = Some bookend_at_end"
    by (simp add: run_defs bookend_at_end_def bookend_def)
  have q: "event_queue bookend_at_end = EndGameEvent {} # []"
    by (simp add: bookend_at_end_def)
  have p: "bookend \<in> set (plugins bookend_at_end)"
    by (simp add: bookend_at_end_def)
  have f: "plugin_attrs bookend (''handle'' @ event_name (EndGameEvent {}))
             = Some (logging ''end'' None)"
    by (simp add: bookend_def EndGameEvent_def)
  note c = sentinels_are_dispatched
             [of "{}" "{}" "GameEngine [bookend]" empty_replay "Suc (Suc 0)" bookend_at_end
                 "EndGameEvent {}" "[]"]
  from c have i: "event_queue (initial {} {} (GameEngine [bookend]) empty_replay)
     = [InitGameEvent {}, EndGameEvent {}]"
    by (simp add: empty_replay_def)
  from c it q p f
  have "\<lparr>im_self = plugin_id bookend, im_func = logging ''end'' None\<rparr>
          \<in> set (invoked bookend_at_end)"
    by blast
  then have m: "\<lparr>im_self = 8, im_func = logging ''end'' None\<rparr> \<in> set (invoked bookend_at_end)"
    by (simp add: bookend_def)
  have r: "run (Suc (Suc (Suc 0))) {} {} (GameEngine [bookend]) empty_replay
       = Some (Inr bookend_done)"
    by (simp add: run_defs bookend_at_end_def bookend_done_def bookend_def)
  have d: "replay_data (replay bookend_done) = [''init:InitGame'', ''x:X'', ''end:EndGame'']"
    by (simp add: bookend_done_def)
  from i it m r d show ?thesis by (intro conjI)
qed

end
